theory Spec2Isabelle
  imports Complex_Main "HOL-Library.Char_ord" "HOL-Library.List_Lexorder"
begin

section \<open>Values held by a config tree\<close>

text \<open>
  A \<open>float\<close>: not-a-number, an infinity (\<open>True\<close> for the positive one), the negative
  zero, or any other finite value, given by the number it denotes (\<open>FFin 0\<close> is the
  positive zero). Only comparison is modelled, not arithmetic.
\<close>

datatype pyfloat = FNaN | FInf bool | FNegZero | FFin rat

text \<open>
  A \<open>CfgNode\<close> is a Python \<open>dict\<close> from string keys to values. The values modelled here
  are \<open>None\<close>, \<open>bool\<close>, \<open>int\<close>, \<open>float\<close>, \<open>str\<close>, \<open>list\<close> and nested mappings
  (tuples are left out). A mapping is an association list in insertion order (Python
  dictionaries keep it). One constructor stands for both a nested \<open>CfgNode\<close> and a plain
  \<open>dict\<close> (the YAML loader returns plain dictionaries, the tree converts them to nodes
  when it is built).
\<close>

datatype pyval =
    PNone
  | PBool bool
  | PInt int
  | PFloat pyfloat
  | PStr string
  | PList "pyval list"
  | PNode "(string \<times> pyval) list"

datatype error =
    AssertionError | AttributeError | KeyError | TypeError | RuntimeError | FrozenStateError

text \<open>
  The config object handed around by the source: the root mapping and the immutability
  flag that \<open>freeze()\<close> and \<open>defrost()\<close> toggle for the whole tree.
\<close>

record cfg =
  entries :: "(string \<times> pyval) list"
  immutable :: bool

definition node_of :: "cfg \<Rightarrow> pyval" where
  "node_of c = PNode (entries c)"


subsection \<open>Python's \<open>==\<close>\<close>

text \<open>
  \<open>bool\<close> is a subclass of \<open>int\<close>, so \<open>True == 1\<close> and \<open>False == 0\<close>. Numbers of
  different types compare by the number they denote (\<open>1 == 1.0\<close>, \<open>0.0 == -0.0\<close>); an
  infinity is equal only to itself, and not-a-number is equal to nothing, itself
  included. Lists compare element by element. Dictionaries compare by size and by looking
  every key of the left operand up in the right one, whatever the insertion order.
  (Inside a list or a dictionary Python takes two references to the same object for
  equal before it compares them; the model compares values, which is the same unless the
  object is not-a-number.)
\<close>

fun float_val :: "pyfloat \<Rightarrow> rat option" where
  "float_val FNaN = None"
| "float_val (FInf positive) = None"
| "float_val FNegZero = Some 0"
| "float_val (FFin q) = Some q"

fun float_eq :: "pyfloat \<Rightarrow> pyfloat \<Rightarrow> bool" where
  "float_eq FNaN y = False"
| "float_eq (FInf positive) y = (y = FInf positive)"
| "float_eq FNegZero y = (float_val y = Some 0)"
| "float_eq (FFin q) y = (float_val y = Some q)"

fun py_eq :: "pyval \<Rightarrow> pyval \<Rightarrow> bool"
  and py_eq_list :: "pyval list \<Rightarrow> pyval list \<Rightarrow> bool"
  and py_eq_items :: "(string \<times> pyval) list \<Rightarrow> (string \<times> pyval) list \<Rightarrow> bool"
where
  "py_eq PNone b = (case b of PNone \<Rightarrow> True | _ \<Rightarrow> False)"
| "py_eq (PBool x) b =
     (case b of
        PBool y \<Rightarrow> x = y
      | PInt j \<Rightarrow> (if x then 1 else 0) = j
      | PFloat y \<Rightarrow> float_val y = Some (if x then 1 else 0)
      | _ \<Rightarrow> False)"
| "py_eq (PInt i) b =
     (case b of
        PBool y \<Rightarrow> i = (if y then 1 else 0)
      | PInt j \<Rightarrow> i = j
      | PFloat y \<Rightarrow> float_val y = Some (of_int i)
      | _ \<Rightarrow> False)"
| "py_eq (PFloat x) b =
     (case b of
        PBool y \<Rightarrow> float_val x = Some (if y then 1 else 0)
      | PInt j \<Rightarrow> float_val x = Some (of_int j)
      | PFloat y \<Rightarrow> float_eq x y
      | _ \<Rightarrow> False)"
| "py_eq (PStr s) b = (case b of PStr t \<Rightarrow> s = t | _ \<Rightarrow> False)"
| "py_eq (PList xs) b = (case b of PList ys \<Rightarrow> py_eq_list xs ys | _ \<Rightarrow> False)"
| "py_eq (PNode kvs) b =
     (case b of PNode kvs' \<Rightarrow> length kvs = length kvs' \<and> py_eq_items kvs kvs' | _ \<Rightarrow> False)"
| "py_eq_list [] ys = (case ys of [] \<Rightarrow> True | _ \<Rightarrow> False)"
| "py_eq_list (x # xs) ys =
     (case ys of [] \<Rightarrow> False | y # ys' \<Rightarrow> py_eq x y \<and> py_eq_list xs ys')"
| "py_eq_items [] kvs' = True"
| "py_eq_items ((k, v) # kvs) kvs' =
     (case map_of kvs' k of None \<Rightarrow> False | Some v' \<Rightarrow> py_eq v v' \<and> py_eq_items kvs kvs')"

subsection \<open>Item and attribute access\<close>

text \<open>\<open>obj[k]\<close>: a missing key raises \<open>KeyError\<close>; a string key on anything but a mapping
  raises \<open>TypeError\<close>.\<close>

fun getitem :: "pyval \<Rightarrow> string \<Rightarrow> error + pyval" where
  "getitem (PNode kvs) k = (case map_of kvs k of None \<Rightarrow> Inl KeyError | Some v \<Rightarrow> Inr v)"
| "getitem _ k = Inl TypeError"

text \<open>\<open>d[k] = v\<close> on a dictionary: an existing key keeps its place, a new key goes last.\<close>

fun setitem :: "(string \<times> pyval) list \<Rightarrow> string \<Rightarrow> pyval \<Rightarrow> (string \<times> pyval) list" where
  "setitem [] k v = [(k, v)]"
| "setitem ((k', v') # kvs) k v = (if k' = k then (k, v) # kvs else (k', v') # setitem kvs k v)"

text \<open>\<open>obj.get(k, default)\<close>: only mappings have the method.\<close>

fun py_get :: "pyval \<Rightarrow> string \<Rightarrow> pyval \<Rightarrow> error + pyval" where
  "py_get (PNode kvs) k d = Inr (case map_of kvs k of None \<Rightarrow> d | Some v \<Rightarrow> v)"
| "py_get _ k d = Inl AttributeError"

text \<open>\<open>node.NAME\<close>: \<open>CfgNode.__getattr__\<close> returns \<open>node[NAME]\<close> when the key is there and
  raises \<open>AttributeError\<close> otherwise; other values have no such attribute.\<close>

fun py_getattr :: "pyval \<Rightarrow> string \<Rightarrow> error + pyval" where
  "py_getattr (PNode kvs) name =
     (case map_of kvs name of None \<Rightarrow> Inl AttributeError | Some v \<Rightarrow> Inr v)"
| "py_getattr _ name = Inl AttributeError"

text \<open>
  \<open>node.NAME = v\<close>. Modelled from the spec: the node library's attribute assignment is an
  in-place mutation, and every in-place mutation of a frozen tree fails
  (\<open>FrozenStateError\<close>); on an unfrozen node it stores \<open>node[NAME] = v\<close>. A value that is
  not a node has no attributes to assign.
\<close>

fun py_setattr :: "bool \<Rightarrow> pyval \<Rightarrow> string \<Rightarrow> pyval \<Rightarrow> error + pyval" where
  "py_setattr frz (PNode kvs) name v =
     (if frz then Inl FrozenStateError else Inr (PNode (setitem kvs name v)))"
| "py_setattr frz _ name v = Inl AttributeError"

text \<open>\<open>node.N1.N2 ... .Nk = v\<close>: the attribute chain is read, the last node is assigned in
  place; the model writes the changed child back into each parent.\<close>

fun assign_attr :: "bool \<Rightarrow> pyval \<Rightarrow> string \<Rightarrow> string list \<Rightarrow> pyval \<Rightarrow> error + pyval" where
  "assign_attr frz node name [] v = py_setattr frz node name v"
| "assign_attr frz node name (n # ns) v =
     (case py_getattr node name of
        Inl e \<Rightarrow> Inl e
      | Inr child \<Rightarrow>
          (case assign_attr frz child n ns v of
             Inl e \<Rightarrow> Inl e
           | Inr child' \<Rightarrow>
               (case node of
                  PNode kvs \<Rightarrow> Inr (PNode (setitem kvs name child'))
                | _ \<Rightarrow> Inl AttributeError)))"

definition cfg_assign :: "cfg \<Rightarrow> string \<Rightarrow> string list \<Rightarrow> pyval \<Rightarrow> error + cfg" where
  "cfg_assign c name names v =
     (case assign_attr (immutable c) (node_of c) name names v of
        Inl e \<Rightarrow> Inl e
      | Inr (PNode kvs) \<Rightarrow> Inr (c\<lparr>entries := kvs\<rparr>)
      | Inr _ \<Rightarrow> Inl AttributeError)"

text \<open>\<open>c.N1.N2\<close>, read.\<close>

definition cfg_getattr2 :: "cfg \<Rightarrow> string \<Rightarrow> string \<Rightarrow> error + pyval" where
  "cfg_getattr2 c n1 n2 =
     (case py_getattr (node_of c) n1 of Inl e \<Rightarrow> Inl e | Inr child \<Rightarrow> py_getattr child n2)"

subsection \<open>\<open>str.split(".")\<close>\<close>

fun split_dot :: "string \<Rightarrow> string list" where
  "split_dot [] = [[]]"
| "split_dot (c # cs) =
     (if c = CHR ''.'' then [] # split_dot cs
      else (case split_dot cs of w # ws \<Rightarrow> (c # w) # ws | [] \<Rightarrow> [[c]]))"

section \<open>\<open>CfgNode.get_field_or_none\<close>\<close>

text \<open>The loop over \<open>path_to_last\<close>; \<open>None\<close> is the early \<open>return None\<close>.\<close>

fun walk_path :: "pyval \<Rightarrow> string list \<Rightarrow> pyval option" where
  "walk_path cfg_node [] = Some cfg_node"
| "walk_path cfg_node (attribute # rest) =
     (case cfg_node of
        PNode kvs \<Rightarrow>
          (case map_of kvs attribute of None \<Rightarrow> None | Some v \<Rightarrow> walk_path v rest)
      | _ \<Rightarrow> None)"

definition get_field_or_none :: "cfg \<Rightarrow> string \<Rightarrow> pyval" where
  "get_field_or_none self field_path =
     (let attributes = split_dot field_path;
          path_to_last = butlast attributes;
          last_attribute = last attributes
      in case walk_path (node_of self) path_to_last of
           None \<Rightarrow> PNone
         | Some cfg_node \<Rightarrow>
             (case cfg_node of
                PNode kvs \<Rightarrow>
                  (case map_of kvs last_attribute of Some v \<Rightarrow> v | None \<Rightarrow> PNone)
              | _ \<Rightarrow> PNone))"

text \<open>
  The lookup as the specification words it (\<open>get_by_path\<close>): navigate the segments; the
  value is absent when a segment is missing or a segment is reached on something that is
  not a node.
\<close>

fun get_by_path :: "pyval \<Rightarrow> string list \<Rightarrow> pyval option" where
  "get_by_path v [] = Some v"
| "get_by_path (PNode kvs) (s # ss) =
     (case map_of kvs s of None \<Rightarrow> None | Some v \<Rightarrow> get_by_path v ss)"
| "get_by_path _ (s # ss) = None"

section \<open>\<open>get_cfg_diff_table\<close>\<close>

lemma map_of_size:
  "map_of obj key = Some v \<Longrightarrow> size v < Suc (size_list (size_prod (\<lambda>_. 0) size) obj)"
  by (induction obj) (auto split: if_splits)

text \<open>
  \<open>_find_all_keys\<close>: the keys of the node are visited in sorted order; a value that is a
  node contributes \<open>"{}.{}".format(key, sub_key)\<close> for each of its own keys, any other
  value contributes \<open>key\<close>. (The \<open>None\<close> branch is never taken: every visited key is a
  key of \<open>obj\<close>.)
\<close>

function find_all_keys :: "(string \<times> pyval) list \<Rightarrow> string list" where
  "find_all_keys obj =
     concat (map (\<lambda>key. case map_of obj key of
                     Some (PNode sub) \<Rightarrow>
                       map (\<lambda>sub_key. key @ ''.'' @ sub_key) (find_all_keys sub)
                   | Some _ \<Rightarrow> [key]
                   | None \<Rightarrow> [])
                 (sort (map fst obj)))"
  by pat_completeness auto
termination
  apply (relation "measure (size_list (size_prod (\<lambda>_. 0) size))")
   apply simp
  apply (drule map_of_size)
  apply simp
  done

declare find_all_keys.simps [simp del]

text \<open>\<open>_get_value\<close>: \<open>obj = obj[k]\<close> for every segment of \<open>full_key.split(".")\<close>.\<close>

fun get_value_loop :: "pyval \<Rightarrow> string list \<Rightarrow> error + pyval" where
  "get_value_loop obj [] = Inr obj"
| "get_value_loop obj (k # ks) =
     (case getitem obj k of Inl e \<Rightarrow> Inl e | Inr v \<Rightarrow> get_value_loop v ks)"

definition get_value :: "pyval \<Rightarrow> string \<Rightarrow> error + pyval" where
  "get_value obj full_key = get_value_loop obj (split_dot full_key)"

text \<open>The loop that fills \<open>diff_table\<close>: a row for every key whose values are \<open>!=\<close>.\<close>

fun diff_rows :: "pyval \<Rightarrow> pyval \<Rightarrow> string list \<Rightarrow> error + (string \<times> pyval \<times> pyval) list" where
  "diff_rows cfg original_cfg [] = Inr []"
| "diff_rows cfg original_cfg (full_key # rest) =
     (case get_value original_cfg full_key of
        Inl e \<Rightarrow> Inl e
      | Inr old_value \<Rightarrow>
          (case get_value cfg full_key of
             Inl e \<Rightarrow> Inl e
           | Inr new_value \<Rightarrow>
               (case diff_rows cfg original_cfg rest of
                  Inl e \<Rightarrow> Inl e
                | Inr diff_table \<Rightarrow>
                    Inr (if \<not> py_eq old_value new_value
                         then (full_key, old_value, new_value) # diff_table
                         else diff_table))))"

text \<open>
  \<open>get_cfg_diff_table\<close>, up to the rows handed to \<open>tabulate\<close> (rendering the rows as a
  table is presentation). The \<open>assert\<close> compares the two key lists.
\<close>

definition get_cfg_diff_table :: "cfg \<Rightarrow> cfg \<Rightarrow> error + (string \<times> pyval \<times> pyval) list" where
  "get_cfg_diff_table c original_cfg =
     (let all_old_keys = find_all_keys (entries original_cfg);
          all_new_keys = find_all_keys (entries c)
      in if all_old_keys \<noteq> all_new_keys then Inl AssertionError
         else diff_rows (node_of c) (node_of original_cfg) all_new_keys)"

text \<open>No key of a node of the tree contains the separator \<open>.\<close> of dotted paths.\<close>

fun dot_free :: "(string \<times> pyval) list \<Rightarrow> bool" where
  "dot_free [] = True"
| "dot_free ((k, v) # kvs) =
     (CHR ''.'' \<notin> set k \<and> (case v of PNode sub \<Rightarrow> dot_free sub | _ \<Rightarrow> True) \<and> dot_free kvs)"





text \<open>Every character of every key of a node of the tree sorts above the separator \<open>.\<close>
  (letters, digits and the underscore do).\<close>

fun high_keys :: "(string \<times> pyval) list \<Rightarrow> bool" where
  "high_keys [] = True"
| "high_keys ((k, v) # kvs) =
     (list_all (\<lambda>ch. CHR ''.'' < ch) k \<and> (case v of PNode sub \<Rightarrow> high_keys sub | _ \<Rightarrow> True)
      \<and> high_keys kvs)"


section \<open>\<open>auto_scale_world_size\<close>\<close>

text \<open>
  Modelled from the spec: the tree primitives \<open>clone\<close>, \<open>is_frozen\<close>, \<open>defrost\<close> and
  \<open>freeze\<close> belong to the node library, which the repository imports. \<open>clone\<close> is a deep
  copy that keeps the frozen state (values are immutable here, so the copy is the same
  value and later changes to the original cannot reach it); \<open>freeze\<close> and \<open>defrost\<close> set
  and clear the flag and are idempotent.
\<close>

definition clone :: "cfg \<Rightarrow> cfg" where
  "clone c = c"

definition is_frozen :: "cfg \<Rightarrow> bool" where
  "is_frozen c = immutable c"

definition defrost :: "cfg \<Rightarrow> cfg" where
  "defrost c = c\<lparr>immutable := False\<rparr>"

definition freeze :: "cfg \<Rightarrow> cfg" where
  "freeze c = c\<lparr>immutable := True\<rparr>"

text \<open>
  A scaling method is called as \<open>method(cfg, new_world_size)\<close> for its effect on \<open>cfg\<close>: it
  may raise, and it leaves the config in some state either way. The registry maps names to
  methods; \<open>Registry.get\<close> raises \<open>KeyError\<close> for a name that is not registered (and
  \<open>TypeError\<close> for an unhashable one).
\<close>

type_synonym strategy = "cfg \<Rightarrow> int \<Rightarrow> error option \<times> cfg"

type_synonym registry = "string \<Rightarrow> strategy option"

fun registry_get :: "registry \<Rightarrow> pyval \<Rightarrow> error + strategy" where
  "registry_get reg (PStr name) = (case reg name of None \<Rightarrow> Inl KeyError | Some f \<Rightarrow> Inr f)"
| "registry_get reg (PList xs) = Inl TypeError"
| "registry_get reg (PNode kvs) = Inl TypeError"
| "registry_get reg _ = Inl KeyError"

text \<open>\<open>len(x)\<close> and the elements a \<open>for\<close> loop over \<open>x\<close> visits.\<close>

fun py_len :: "pyval \<Rightarrow> error + nat" where
  "py_len (PList xs) = Inr (length xs)"
| "py_len (PStr s) = Inr (length s)"
| "py_len (PNode kvs) = Inr (length kvs)"
| "py_len _ = Inl TypeError"

fun py_iter :: "pyval \<Rightarrow> error + pyval list" where
  "py_iter (PList xs) = Inr xs"
| "py_iter (PStr s) = Inr (map (\<lambda>ch. PStr [ch]) s)"
| "py_iter (PNode kvs) = Inr (map (\<lambda>kv. PStr (fst kv)) kvs)"
| "py_iter _ = Inl TypeError"

text \<open>What the logger is told, as events.\<close>

datatype logmsg =
    ApplyingMethod pyval
  | AutoScaled "(string \<times> pyval \<times> pyval) list"
  | ArchDefChanged

text \<open>
  How a call ends: it raises, it returns the config object it was given (\<open>return cfg\<close>), or
  it returns \<open>None\<close> (the end of the body is reached). The outcome also holds the state the
  caller's config object is left in, since the function works in place, and the log.
\<close>

datatype result = Raises error | ReturnsCfg | ReturnsNone

record outcome =
  returned :: result
  cfg_after :: cfg
  logged :: "logmsg list"

definition raise_with :: "error \<Rightarrow> cfg \<Rightarrow> logmsg list \<Rightarrow> outcome" where
  "raise_with e c lg = \<lparr>returned = Raises e, cfg_after = c, logged = lg\<rparr>"

text \<open>The \<open>for scaling_method in ...\<close> loop (lines 207 to 209).\<close>

fun run_methods :: "registry \<Rightarrow> pyval list \<Rightarrow> int \<Rightarrow> cfg \<Rightarrow> logmsg list
    \<Rightarrow> error option \<times> cfg \<times> logmsg list" where
  "run_methods reg [] new_world_size c lg = (None, c, lg)"
| "run_methods reg (scaling_method # rest) new_world_size c lg =
     (let lg' = lg @ [ApplyingMethod scaling_method]
      in case registry_get reg scaling_method of
           Inl e \<Rightarrow> (Some e, c, lg')
         | Inr method \<Rightarrow>
             (case method c new_world_size of
                (Some e, c') \<Rightarrow> (Some e, c', lg')
              | (None, c') \<Rightarrow> run_methods reg rest new_world_size c' lg'))"

text \<open>Lines 206 to 209: the \<open>assert\<close> on the list of method names, then the loop.\<close>

definition apply_scaling_methods :: "registry \<Rightarrow> cfg \<Rightarrow> int \<Rightarrow> error option \<times> cfg \<times> logmsg list" where
  "apply_scaling_methods reg c new_world_size =
     (case cfg_getattr2 c ''SOLVER'' ''AUTO_SCALING_METHODS'' of
        Inl e \<Rightarrow> (Some e, c, [])
      | Inr methods \<Rightarrow>
          (case py_len methods of
             Inl e \<Rightarrow> (Some e, c, [])
           | Inr n \<Rightarrow>
               if \<not> n > 0 then (Some AssertionError, c, [])
               else (case py_iter methods of
                       Inl e \<Rightarrow> (Some e, c, [])
                     | Inr names \<Rightarrow> run_methods reg names new_world_size c [])))"

text \<open>
  Lines 211 to 220: the \<open>assert\<close> compares \<open>cfg.SOLVER.REFERENCE_WORLD_SIZE\<close> with
  \<open>cfg.SOLVER.REFERENCE_WORLD_SIZE\<close>, both read from the config as the methods left it;
  then the field is assigned, the config is frozen again if the snapshot was, and the
  diff against the snapshot is logged. The body ends there, without a \<open>return\<close>.
\<close>

definition finish_scaling :: "cfg \<Rightarrow> cfg \<Rightarrow> bool \<Rightarrow> int \<Rightarrow> logmsg list \<Rightarrow> outcome" where
  "finish_scaling c original_cfg frozen new_world_size lg =
     (case cfg_getattr2 c ''SOLVER'' ''REFERENCE_WORLD_SIZE'' of
        Inl e \<Rightarrow> raise_with e c lg
      | Inr lhs \<Rightarrow>
          (case cfg_getattr2 c ''SOLVER'' ''REFERENCE_WORLD_SIZE'' of
             Inl e \<Rightarrow> raise_with e c lg
           | Inr rhs \<Rightarrow>
               if \<not> py_eq lhs rhs then raise_with AssertionError c lg
               else (case cfg_assign c ''SOLVER'' [''REFERENCE_WORLD_SIZE''] (PInt new_world_size) of
                       Inl e \<Rightarrow> raise_with e c lg
                     | Inr c' \<Rightarrow>
                         (let c'' = (if frozen then freeze c' else c')
                          in case get_cfg_diff_table c'' original_cfg of
                               Inl e \<Rightarrow> raise_with e c'' lg
                             | Inr table \<Rightarrow>
                                 \<lparr>returned = ReturnsNone, cfg_after = c'',
                                  logged = lg @ [AutoScaled table]\<rparr>))))"

definition auto_scale_world_size :: "registry \<Rightarrow> cfg \<Rightarrow> int \<Rightarrow> outcome" where
  "auto_scale_world_size reg c new_world_size =
     (case cfg_getattr2 c ''SOLVER'' ''REFERENCE_WORLD_SIZE'' of
        Inl e \<Rightarrow> raise_with e c []
      | Inr old_world_size \<Rightarrow>
          if py_eq old_world_size (PInt 0) \<or> py_eq old_world_size (PInt new_world_size)
          then \<lparr>returned = ReturnsCfg, cfg_after = c, logged = []\<rparr>
          else (let original_cfg = clone c;
                    frozen = is_frozen original_cfg
                in case apply_scaling_methods reg (defrost c) new_world_size of
                     (Some e, c', lg) \<Rightarrow> raise_with e c' lg
                   | (None, c', lg) \<Rightarrow>
                       finish_scaling c' original_cfg frozen new_world_size lg))"

section \<open>\<open>CfgNode.merge_from_other_cfg\<close>\<close>

text \<open>
  The inherited merge, \<open>super().merge_from_other_cfg\<close>, is a parameter: given the receiver
  and the incoming tree it may raise, and it leaves the receiver in some state. A call of
  the method ends with what was raised (if anything), the states of the two config
  objects, and the log.
\<close>

type_synonym super_merge = "cfg \<Rightarrow> cfg \<Rightarrow> error option \<times> cfg"

record merge_outcome =
  merge_raised :: "error option"
  self_after :: cfg
  other_after :: cfg
  merge_logged :: "logmsg list"

definition merge_from_other_cfg :: "super_merge \<Rightarrow> cfg \<Rightarrow> cfg \<Rightarrow> merge_outcome" where
  "merge_from_other_cfg super_merge_from_other_cfg self cfg_other =
     (case py_get (node_of cfg_other) ''MODEL'' (PNode []) of
        Inl e \<Rightarrow> \<lparr>merge_raised = Some e, self_after = self, other_after = cfg_other,
                  merge_logged = []\<rparr>
      | Inr model \<Rightarrow>
     (case py_get model ''FBNET_V2'' (PNode []) of
        Inl e \<Rightarrow> \<lparr>merge_raised = Some e, self_after = self, other_after = cfg_other,
                  merge_logged = []\<rparr>
      | Inr fbnet_v2 \<Rightarrow>
     (case py_get fbnet_v2 ''ARCH_DEF'' PNone of
        Inl e \<Rightarrow> \<lparr>merge_raised = Some e, self_after = self, other_after = cfg_other,
                  merge_logged = []\<rparr>
      | Inr arch_def \<Rightarrow>
          if py_eq arch_def (PStr []) then
            (case cfg_assign cfg_other ''MODEL'' [''FBNET_V2'', ''ARCH_DEF''] (PList []) of
               Inl e \<Rightarrow> \<lparr>merge_raised = Some e, self_after = self, other_after = cfg_other,
                         merge_logged = [ArchDefChanged]\<rparr>
             | Inr cfg_other' \<Rightarrow>
                 (case super_merge_from_other_cfg self cfg_other' of
                    (r, self') \<Rightarrow> \<lparr>merge_raised = r, self_after = self',
                                  other_after = cfg_other', merge_logged = [ArchDefChanged]\<rparr>))
          else
            (case super_merge_from_other_cfg self cfg_other of
               (r, self') \<Rightarrow> \<lparr>merge_raised = r, self_after = self',
                             other_after = cfg_other, merge_logged = []\<rparr>))))"

text \<open>The deprecated field, and what it means for a tree to carry its old default, the
  empty string.\<close>

definition arch_def_path :: "string list" where
  "arch_def_path = [''MODEL'', ''FBNET_V2'', ''ARCH_DEF'']"

definition carries_old_arch_def :: "cfg \<Rightarrow> bool" where
  "carries_old_arch_def c = (get_by_path (node_of c) arch_def_path = Some (PStr []))"

text \<open>
  Modelled from the spec: \<open>merge_from_tree\<close>, the inherited merge of the node library.
  It recursively overlays the keys of the incoming tree onto the receiver; where a key is
  present in both and both values are nodes, it merges them; otherwise the incoming value
  replaces the receiver's. It fails with \<open>FrozenStateError\<close> when the receiver is frozen.
\<close>

fun overlay :: "(string \<times> pyval) list \<Rightarrow> (string \<times> pyval) list \<Rightarrow> (string \<times> pyval) list" where
  "overlay [] b = b"
| "overlay ((k, v) # a) b =
     overlay a (setitem b k
       (case v of
          PNode a' \<Rightarrow> (case map_of b k of Some (PNode b') \<Rightarrow> PNode (overlay a' b') | _ \<Rightarrow> v)
        | _ \<Rightarrow> v))"

definition merge_from_tree :: super_merge where
  "merge_from_tree self other =
     (if immutable self then (Some FrozenStateError, self)
      else (None, self\<lparr>entries := overlay (entries other) (entries self)\<rparr>))"

section \<open>\<open>CfgNode.__hash__\<close>\<close>









section \<open>\<open>merge_from_file\<close> and \<open>reroute_load_yaml_with_base\<close>\<close>














section \<open>Theorems\<close>

lemma split_dot_nonempty: "split_dot s \<noteq> []"
  by (induction s) (auto split: list.splits)

lemma walk_path_is_get_by_path: "walk_path v ss = get_by_path v ss"
  by (induction v ss rule: get_by_path.induct) (auto split: option.splits)

lemma get_by_path_snoc:
  "get_by_path v (ss @ [s]) =
     (case get_by_path v ss of
        None \<Rightarrow> None
      | Some (PNode kvs) \<Rightarrow> map_of kvs s
      | Some _ \<Rightarrow> None)"
  by (induction v ss rule: get_by_path.induct) (auto split: option.splits pyval.splits)

text \<open>
  C3 (amended). \<open>get_field_or_none\<close> returns the stored value when the dotted path
  resolves and Python's \<open>None\<close> when it does not: a failed lookup is told apart from
  every present value except a present \<open>None\<close>.
\<close>

theorem get_field_or_none_spec:
  "get_field_or_none self field_path =
     (case get_by_path (node_of self) (split_dot field_path) of
        None \<Rightarrow> PNone
      | Some v \<Rightarrow> v)"
proof -
  obtain ss s where sp: "split_dot field_path = ss @ [s]"
    using split_dot_nonempty [of field_path] by (metis rev_exhaust)
  show ?thesis
    unfolding get_field_or_none_def Let_def sp
    by (simp add: walk_path_is_get_by_path get_by_path_snoc
        split: option.splits pyval.splits)
qed

theorem get_field_or_none_spec_witness:
  "get_field_or_none \<lparr>entries = [(''A'', PNode [(''B'', PInt 7)])], immutable = False\<rparr> ''A.B'' = PInt 7
   \<and> get_field_or_none \<lparr>entries = [(''A'', PNode [(''B'', PInt 7)])], immutable = False\<rparr> ''A.C'' = PNone"
  using get_field_or_none_spec
    [of "\<lparr>entries = [(''A'', PNode [(''B'', PInt 7)])], immutable = False\<rparr>" "''A.B''"]
    get_field_or_none_spec
    [of "\<lparr>entries = [(''A'', PNode [(''B'', PInt 7)])], immutable = False\<rparr>" "''A.C''"]
  by (simp add: node_of_def)

text \<open>
  C3, counterexample: in the tree \<open>{X: None}\<close> the path \<open>X\<close> resolves (to \<open>None\<close>) and
  the path \<open>Y\<close> does not, and \<open>get_field_or_none\<close> returns the same value for both.
\<close>

theorem get_field_or_none_absent_counterexample:
  "get_by_path (node_of \<lparr>entries = [(''X'', PNone)], immutable = False\<rparr>) (split_dot ''X'') = Some PNone
   \<and> get_by_path (node_of \<lparr>entries = [(''X'', PNone)], immutable = False\<rparr>) (split_dot ''Y'') = None
   \<and> get_field_or_none \<lparr>entries = [(''X'', PNone)], immutable = False\<rparr> ''X''
       = get_field_or_none \<lparr>entries = [(''X'', PNone)], immutable = False\<rparr> ''Y''"
  by (simp add: node_of_def get_field_or_none_def)

subsection \<open>The diff table\<close>






















lemma high_keys_dot_free: "high_keys obj \<Longrightarrow> dot_free obj"
proof (induction obj rule: dot_free.induct)
  case 1
  then show ?case by simp
next
  case (2 k v kvs)
  then show ?case by (cases v) (auto simp: list_all_iff)
qed






















subsection \<open>Auto-scaling\<close>

text \<open>
  C6. When the reference world size read from \<open>cfg.SOLVER.REFERENCE_WORLD_SIZE\<close> is \<open>== 0\<close>
  or \<open>== new_world_size\<close>, \<open>auto_scale_world_size\<close> returns the config it was given, leaves
  it as it was, and logs nothing; this holds for every registry, so no registered method is
  looked up or called.
\<close>

theorem auto_scale_noop:
  assumes "cfg_getattr2 c ''SOLVER'' ''REFERENCE_WORLD_SIZE'' = Inr old_world_size"
    and "py_eq old_world_size (PInt 0) \<or> py_eq old_world_size (PInt new_world_size)"
  shows "auto_scale_world_size reg c new_world_size
           = \<lparr>returned = ReturnsCfg, cfg_after = c, logged = []\<rparr>"
  using assms by (simp add: auto_scale_world_size_def)

theorem auto_scale_noop_witness:
  "auto_scale_world_size (\<lambda>name. Some (\<lambda>c n. (Some RuntimeError, c\<lparr>entries := []\<rparr>)))
     \<lparr>entries = [(''SOLVER'', PNode [(''REFERENCE_WORLD_SIZE'', PInt 8),
                                      (''AUTO_SCALING_METHODS'', PList [PStr ''m''])])],
      immutable = True\<rparr> 8
   = \<lparr>returned = ReturnsCfg,
      cfg_after = \<lparr>entries = [(''SOLVER'', PNode [(''REFERENCE_WORLD_SIZE'', PInt 8),
                                      (''AUTO_SCALING_METHODS'', PList [PStr ''m''])])],
      immutable = True\<rparr>, logged = []\<rparr>
  \<and> auto_scale_world_size (\<lambda>name. Some (\<lambda>c n. (Some RuntimeError, c\<lparr>entries := []\<rparr>)))
     \<lparr>entries = [(''SOLVER'', PNode [(''REFERENCE_WORLD_SIZE'', PInt 0),
                                      (''AUTO_SCALING_METHODS'', PList [PStr ''m''])])],
      immutable = False\<rparr> 16
   = \<lparr>returned = ReturnsCfg,
      cfg_after = \<lparr>entries = [(''SOLVER'', PNode [(''REFERENCE_WORLD_SIZE'', PInt 0),
                                      (''AUTO_SCALING_METHODS'', PList [PStr ''m''])])],
      immutable = False\<rparr>, logged = []\<rparr>"
proof -
  let ?reg = "\<lambda>name::string. Some (\<lambda>(c::cfg) (n::int). (Some RuntimeError, c\<lparr>entries := []\<rparr>))"
  let ?c8 = "\<lparr>entries = [(''SOLVER'', PNode [(''REFERENCE_WORLD_SIZE'', PInt 8),
                                      (''AUTO_SCALING_METHODS'', PList [PStr ''m''])])],
      immutable = True\<rparr>"
  let ?c0 = "\<lparr>entries = [(''SOLVER'', PNode [(''REFERENCE_WORLD_SIZE'', PInt 0),
                                      (''AUTO_SCALING_METHODS'', PList [PStr ''m''])])],
      immutable = False\<rparr>"
  have r8: "cfg_getattr2 ?c8 ''SOLVER'' ''REFERENCE_WORLD_SIZE'' = Inr (PInt 8)"
    by (simp add: cfg_getattr2_def node_of_def)
  have r0: "cfg_getattr2 ?c0 ''SOLVER'' ''REFERENCE_WORLD_SIZE'' = Inr (PInt 0)"
    by (simp add: cfg_getattr2_def node_of_def)
  have e8: "py_eq (PInt 8) (PInt 0) \<or> py_eq (PInt 8) (PInt 8)" by simp
  have e0: "py_eq (PInt 0) (PInt 0) \<or> py_eq (PInt 0) (PInt 16)" by simp
  show ?thesis
    using auto_scale_noop [OF r8 e8, of ?reg] auto_scale_noop [OF r0 e0, of ?reg] by simp
qed







text \<open>
  C1. A run of the scaling branch (reference world size 8, target 16, one method that
  changes nothing): the config is scaled in place and the call returns \<open>None\<close>, not the
  config; only the early exit of line 200 returns it.
\<close>

theorem auto_scale_returns_none:
  "auto_scale_world_size
      (\<lambda>name. if name = ''noop'' then Some (\<lambda>c n. (None, c)) else None)
      \<lparr>entries = [(''SOLVER'', PNode [(''REFERENCE_WORLD_SIZE'', PInt 8),
                                       (''AUTO_SCALING_METHODS'', PList [PStr ''noop''])])],
       immutable = False\<rparr> 16
    = \<lparr>returned = ReturnsNone,
       cfg_after = \<lparr>entries = [(''SOLVER'', PNode [(''REFERENCE_WORLD_SIZE'', PInt 16),
                                        (''AUTO_SCALING_METHODS'', PList [PStr ''noop''])])],
                    immutable = False\<rparr>,
       logged = [ApplyingMethod (PStr ''noop''),
                 AutoScaled [(''SOLVER.REFERENCE_WORLD_SIZE'', PInt 8, PInt 16)]]\<rparr>"
  by code_simp

text \<open>
  C2. The registered method overwrites \<open>SOLVER.REFERENCE_WORLD_SIZE\<close> with 4. The \<open>assert\<close>
  of lines 211 to 213 compares the field with itself, so it passes, and the run goes on to
  set the field to 16 and returns.
\<close>

theorem auto_scale_assert_passes:
  "auto_scale_world_size
      (\<lambda>name. if name = ''m''
               then Some (\<lambda>c n. case cfg_assign c ''SOLVER'' [''REFERENCE_WORLD_SIZE''] (PInt 4) of
                                   Inl e \<Rightarrow> (Some e, c) | Inr c' \<Rightarrow> (None, c'))
               else None)
      \<lparr>entries = [(''SOLVER'', PNode [(''REFERENCE_WORLD_SIZE'', PInt 8),
                                       (''AUTO_SCALING_METHODS'', PList [PStr ''m''])])],
       immutable = False\<rparr> 16
    = \<lparr>returned = ReturnsNone,
       cfg_after = \<lparr>entries = [(''SOLVER'', PNode [(''REFERENCE_WORLD_SIZE'', PInt 16),
                                        (''AUTO_SCALING_METHODS'', PList [PStr ''m''])])],
                    immutable = False\<rparr>,
       logged = [ApplyingMethod (PStr ''m''),
                 AutoScaled [(''SOLVER.REFERENCE_WORLD_SIZE'', PInt 8, PInt 16)]]\<rparr>"
  by code_simp

subsection \<open>The deprecated-field migration\<close>

lemma py_eq_empty_str: "py_eq x (PStr []) = (x = PStr [])"
  by (cases x) auto

lemma map_of_setitem_fun: "map_of (setitem kvs k v) = (map_of kvs)(k \<mapsto> v)"
  by (induction kvs) (auto simp: fun_eq_iff)

lemma keys_setitem: "map_of kvs k = Some w \<Longrightarrow> map fst (setitem kvs k v) = map fst kvs"
  by (induction kvs) (auto split: if_splits)

lemma carries_structure:
  assumes "carries_old_arch_def c"
  obtains m f where "map_of (entries c) ''MODEL'' = Some (PNode m)"
    and "map_of m ''FBNET_V2'' = Some (PNode f)"
    and "map_of f ''ARCH_DEF'' = Some (PStr [])"
proof -
  from assms obtain v1 where v1: "map_of (entries c) ''MODEL'' = Some v1"
    and r1: "get_by_path v1 [''FBNET_V2'', ''ARCH_DEF''] = Some (PStr [])"
    by (auto simp: carries_old_arch_def_def arch_def_path_def node_of_def split: option.splits)
  from r1 obtain m where m: "v1 = PNode m" by (cases v1) auto
  from r1 m obtain v2 where v2: "map_of m ''FBNET_V2'' = Some v2"
    and r2: "get_by_path v2 [''ARCH_DEF''] = Some (PStr [])"
    by (auto split: option.splits)
  from r2 obtain f where f: "v2 = PNode f" by (cases v2) auto
  from r2 f have "map_of f ''ARCH_DEF'' = Some (PStr [])"
    by (auto split: option.splits)
  with v1 m v2 f that show ?thesis by blast
qed

lemma not_carries_guard:
  assumes "\<not> carries_old_arch_def c"
  shows "other_after (merge_from_other_cfg sm self c) = c
       \<and> merge_logged (merge_from_other_cfg sm self c) = []
       \<and> (merge_raised (merge_from_other_cfg sm self c) = Some AttributeError
            \<and> self_after (merge_from_other_cfg sm self c) = self
          \<or> (merge_raised (merge_from_other_cfg sm self c),
              self_after (merge_from_other_cfg sm self c)) = sm self c)"
proof (cases "py_get (node_of c) ''MODEL'' (PNode [])")
  case (Inl e)
  then show ?thesis by (simp add: node_of_def)
next
  case (Inr model)
  note model = this
  show ?thesis
  proof (cases "py_get model ''FBNET_V2'' (PNode [])")
    case (Inl e)
    then have "e = AttributeError" by (cases model) auto
    with Inl model show ?thesis by (simp add: merge_from_other_cfg_def)
  next
    case (Inr fbnet)
    note fbnet = this
    show ?thesis
    proof (cases "py_get fbnet ''ARCH_DEF'' PNone")
      case (Inl e)
      then have "e = AttributeError" by (cases fbnet) auto
      with Inl model fbnet show ?thesis by (simp add: merge_from_other_cfg_def)
    next
      case (Inr arch)
      have "arch \<noteq> PStr []"
      proof
        assume a: "arch = PStr []"
        from fbnet obtain m where m: "model = PNode m" by (cases model) auto
        from Inr obtain f where f: "fbnet = PNode f" by (cases fbnet) auto
        from Inr a f have 3: "map_of f ''ARCH_DEF'' = Some (PStr [])"
          by (auto split: option.splits)
        from fbnet m f 3 have 2: "map_of m ''FBNET_V2'' = Some (PNode f)"
          by (auto split: option.splits)
        from model m 2 have 1: "map_of (entries c) ''MODEL'' = Some (PNode m)"
          by (auto simp: node_of_def split: option.splits)
        from 1 2 3 have "carries_old_arch_def c"
          by (simp add: carries_old_arch_def_def arch_def_path_def node_of_def)
        with assms show False by simp
      qed
      with Inr model fbnet show ?thesis
        by (simp add: merge_from_other_cfg_def py_eq_empty_str split: prod.splits)
    qed
  qed
qed


lemma get_by_path_setitem:
  "get_by_path (PNode (setitem kvs k v)) (s # ss) =
     (if s = k then get_by_path v ss else get_by_path (PNode kvs) (s # ss))"
  by (simp add: map_of_setitem_fun)

lemma rewritten_paths:
  assumes 1: "map_of kvs ''MODEL'' = Some (PNode m)"
    and 2: "map_of m ''FBNET_V2'' = Some (PNode f)"
    and 3: "map_of f ''ARCH_DEF'' = Some (PStr [])"
    and p: "take (length p) arch_def_path \<noteq> p"
  shows "get_by_path
           (PNode (setitem kvs ''MODEL''
              (PNode (setitem m ''FBNET_V2'' (PNode (setitem f ''ARCH_DEF'' (PList []))))))) p
         = get_by_path (PNode kvs) p"
proof (cases p)
  case Nil
  with p show ?thesis by simp
next
  case (Cons s1 p1)
  show ?thesis
  proof (cases "s1 = ''MODEL''")
    case False
    with Cons show ?thesis by (simp add: map_of_setitem_fun)
  next
    case True
    note s1 = this
    show ?thesis
    proof (cases p1)
      case Nil
      with Cons s1 p show ?thesis by (simp add: arch_def_path_def)
    next
      case (Cons s2 p2)
      note p1 = this
      show ?thesis
      proof (cases "s2 = ''FBNET_V2''")
        case False
        with \<open>p = s1 # p1\<close> s1 p1 1 show ?thesis by (simp add: map_of_setitem_fun)
      next
        case True
        note s2 = this
        show ?thesis
        proof (cases p2)
          case Nil
          with \<open>p = s1 # p1\<close> s1 p1 s2 p show ?thesis by (simp add: arch_def_path_def)
        next
          case (Cons s3 p3)
          note p2 = this
          show ?thesis
          proof (cases "s3 = ''ARCH_DEF''")
            case False
            with \<open>p = s1 # p1\<close> s1 p1 s2 p2 1 2 show ?thesis by (simp add: map_of_setitem_fun)
          next
            case True
            with \<open>p = s1 # p1\<close> s1 p1 s2 p2 p have "p3 \<noteq> []" by (auto simp: arch_def_path_def)
            then obtain s4 p4 where "p3 = s4 # p4" by (cases p3) auto
            with True \<open>p = s1 # p1\<close> s1 p1 s2 p2 1 2 3 show ?thesis
              by (simp add: map_of_setitem_fun)
          qed
        qed
      qed
    qed
  qed
qed

lemma carries_assign:
  assumes "carries_old_arch_def c" "\<not> immutable c"
  obtains c' where "cfg_assign c ''MODEL'' [''FBNET_V2'', ''ARCH_DEF''] (PList []) = Inr c'"
    and "get_by_path (node_of c') arch_def_path = Some (PList [])"
    and "\<forall>p. take (length p) arch_def_path \<noteq> p \<longrightarrow> get_by_path (node_of c') p = get_by_path (node_of c) p"
    and "immutable c' = immutable c"
    and "map fst (entries c') = map fst (entries c)"
proof -
  from assms(1) obtain m f where 1: "map_of (entries c) ''MODEL'' = Some (PNode m)"
    and 2: "map_of m ''FBNET_V2'' = Some (PNode f)"
    and 3: "map_of f ''ARCH_DEF'' = Some (PStr [])"
    by (rule carries_structure)
  let ?kvs = "setitem (entries c) ''MODEL''
              (PNode (setitem m ''FBNET_V2'' (PNode (setitem f ''ARCH_DEF'' (PList [])))))"
  have a: "cfg_assign c ''MODEL'' [''FBNET_V2'', ''ARCH_DEF''] (PList []) = Inr (c\<lparr>entries := ?kvs\<rparr>)"
    using 1 2 3 assms(2) by (simp add: cfg_assign_def node_of_def)
  have b: "get_by_path (node_of (c\<lparr>entries := ?kvs\<rparr>)) arch_def_path = Some (PList [])"
    by (simp add: node_of_def arch_def_path_def map_of_setitem_fun)
  have d: "\<forall>p. take (length p) arch_def_path \<noteq> p \<longrightarrow>
             get_by_path (node_of (c\<lparr>entries := ?kvs\<rparr>)) p = get_by_path (node_of c) p"
    using rewritten_paths [OF 1 2 3] by (simp add: node_of_def)
  have e: "map fst (entries (c\<lparr>entries := ?kvs\<rparr>)) = map fst (entries c)"
    using 1 by (simp add: keys_setitem)
  from a b d e that show ?thesis by simp
qed

lemma carries_assign_frozen:
  assumes "carries_old_arch_def c" "immutable c"
  shows "cfg_assign c ''MODEL'' [''FBNET_V2'', ''ARCH_DEF''] (PList []) = Inl FrozenStateError"
proof -
  from assms(1) obtain m f where "map_of (entries c) ''MODEL'' = Some (PNode m)"
    and "map_of m ''FBNET_V2'' = Some (PNode f)"
    by (rule carries_structure)
  with assms(2) show ?thesis by (simp add: cfg_assign_def node_of_def)
qed

lemma carries_guard:
  assumes "carries_old_arch_def c"
  shows "merge_from_other_cfg sm self c =
     (case cfg_assign c ''MODEL'' [''FBNET_V2'', ''ARCH_DEF''] (PList []) of
               Inl e \<Rightarrow> \<lparr>merge_raised = Some e, self_after = self, other_after = c,
                         merge_logged = [ArchDefChanged]\<rparr>
             | Inr c' \<Rightarrow>
                 (case sm self c' of
                    (r, self') \<Rightarrow> \<lparr>merge_raised = r, self_after = self',
                                  other_after = c', merge_logged = [ArchDefChanged]\<rparr>))"
proof -
  from assms obtain m f where 1: "map_of (entries c) ''MODEL'' = Some (PNode m)"
    and 2: "map_of m ''FBNET_V2'' = Some (PNode f)"
    and 3: "map_of f ''ARCH_DEF'' = Some (PStr [])"
    by (rule carries_structure)
  then show ?thesis
    by (simp add: merge_from_other_cfg_def node_of_def)
qed

text \<open>
  C9 (amended). If the incoming tree carries \<open>MODEL.FBNET_V2.ARCH_DEF\<close> with the empty
  string and is not frozen, then the field is rewritten to the empty list in the incoming
  tree, every path that does not lead to the field reads as before, the warning is logged,
  and the inherited merge is run on the rewritten tree. If it carries the field with that
  value and is frozen, the warning is logged and the assignment fails: nothing is rewritten
  and the inherited merge does not run. If the incoming tree does not carry
  the field with that value, it is left as it is, nothing is logged, and the inherited merge
  is run on it unless reading the field raised.
\<close>

theorem merge_from_other_cfg_migration:
  "(carries_old_arch_def cfg_other \<and> \<not> immutable cfg_other \<longrightarrow>
       get_by_path (node_of (other_after (merge_from_other_cfg sm self cfg_other))) arch_def_path
         = Some (PList [])
     \<and> (\<forall>p. take (length p) arch_def_path \<noteq> p \<longrightarrow>
           get_by_path (node_of (other_after (merge_from_other_cfg sm self cfg_other))) p
             = get_by_path (node_of cfg_other) p)
     \<and> merge_logged (merge_from_other_cfg sm self cfg_other) = [ArchDefChanged]
     \<and> (merge_raised (merge_from_other_cfg sm self cfg_other),
         self_after (merge_from_other_cfg sm self cfg_other))
         = sm self (other_after (merge_from_other_cfg sm self cfg_other)))
   \<and> (carries_old_arch_def cfg_other \<and> immutable cfg_other \<longrightarrow>
       merge_from_other_cfg sm self cfg_other
         = \<lparr>merge_raised = Some FrozenStateError, self_after = self, other_after = cfg_other,
            merge_logged = [ArchDefChanged]\<rparr>)
   \<and> (\<not> carries_old_arch_def cfg_other \<longrightarrow>
       other_after (merge_from_other_cfg sm self cfg_other) = cfg_other
     \<and> merge_logged (merge_from_other_cfg sm self cfg_other) = []
     \<and> (merge_raised (merge_from_other_cfg sm self cfg_other) = Some AttributeError
            \<and> self_after (merge_from_other_cfg sm self cfg_other) = self
          \<or> (merge_raised (merge_from_other_cfg sm self cfg_other),
              self_after (merge_from_other_cfg sm self cfg_other)) = sm self cfg_other))"
proof (intro conjI impI)
  assume "\<not> carries_old_arch_def cfg_other"
  from not_carries_guard [OF this, of sm self]
  show "other_after (merge_from_other_cfg sm self cfg_other) = cfg_other"
    and "merge_logged (merge_from_other_cfg sm self cfg_other) = []"
    and "merge_raised (merge_from_other_cfg sm self cfg_other) = Some AttributeError
            \<and> self_after (merge_from_other_cfg sm self cfg_other) = self
          \<or> (merge_raised (merge_from_other_cfg sm self cfg_other),
              self_after (merge_from_other_cfg sm self cfg_other)) = sm self cfg_other"
    by blast+
next
  assume "carries_old_arch_def cfg_other \<and> immutable cfg_other"
  then show "merge_from_other_cfg sm self cfg_other
         = \<lparr>merge_raised = Some FrozenStateError, self_after = self, other_after = cfg_other,
            merge_logged = [ArchDefChanged]\<rparr>"
    using carries_guard [of cfg_other sm self] carries_assign_frozen [of cfg_other] by simp
next
  assume h: "carries_old_arch_def cfg_other \<and> \<not> immutable cfg_other"
  then obtain c' where a: "cfg_assign cfg_other ''MODEL'' [''FBNET_V2'', ''ARCH_DEF''] (PList []) = Inr c'"
    and b: "get_by_path (node_of c') arch_def_path = Some (PList [])"
    and d: "\<forall>p. take (length p) arch_def_path \<noteq> p \<longrightarrow> get_by_path (node_of c') p = get_by_path (node_of cfg_other) p"
    using carries_assign [of cfg_other] by metis
  have R: "merge_from_other_cfg sm self cfg_other =
      \<lparr>merge_raised = fst (sm self c'), self_after = snd (sm self c'),
       other_after = c', merge_logged = [ArchDefChanged]\<rparr>"
    using carries_guard [of cfg_other sm self] h a by (simp split: prod.splits)
  show "get_by_path (node_of (other_after (merge_from_other_cfg sm self cfg_other))) arch_def_path
         = Some (PList [])"
    using R b by simp
  show "\<forall>p. take (length p) arch_def_path \<noteq> p \<longrightarrow>
           get_by_path (node_of (other_after (merge_from_other_cfg sm self cfg_other))) p
             = get_by_path (node_of cfg_other) p"
    using R d by simp
  show "merge_logged (merge_from_other_cfg sm self cfg_other) = [ArchDefChanged]"
    using R by simp
  show "(merge_raised (merge_from_other_cfg sm self cfg_other),
         self_after (merge_from_other_cfg sm self cfg_other))
         = sm self (other_after (merge_from_other_cfg sm self cfg_other))"
    using R by simp
qed

text \<open>
  C10 (amended). When the migration triggers on an incoming tree that is not frozen, the
  incoming tree itself is changed: after the call the caller's \<open>cfg_other\<close> holds the empty
  list at \<open>MODEL.FBNET_V2.ARCH_DEF\<close> and differs from what was passed in, whatever the
  receiver is and whether or not the inherited merge then succeeds.
\<close>

theorem merge_from_other_cfg_mutates_argument:
  assumes "carries_old_arch_def cfg_other" and "\<not> immutable cfg_other"
  shows "get_by_path (node_of (other_after (merge_from_other_cfg sm self cfg_other))) arch_def_path
           = Some (PList [])
       \<and> other_after (merge_from_other_cfg sm self cfg_other) \<noteq> cfg_other"
proof -
  obtain c' where a: "cfg_assign cfg_other ''MODEL'' [''FBNET_V2'', ''ARCH_DEF''] (PList []) = Inr c'"
    and b: "get_by_path (node_of c') arch_def_path = Some (PList [])"
    using carries_assign [OF assms] by metis
  have R: "other_after (merge_from_other_cfg sm self cfg_other) = c'"
    using carries_guard [OF assms(1), of sm self] a by (simp split: prod.splits)
  have "get_by_path (node_of cfg_other) arch_def_path = Some (PStr [])"
    using assms(1) by (simp add: carries_old_arch_def_def)
  with b have "c' \<noteq> cfg_other" by auto
  with R b show ?thesis by simp
qed


theorem merge_from_other_cfg_migration_witness:
  "get_by_path (node_of (other_after (merge_from_other_cfg merge_from_tree
       \<lparr>entries = [(''MODEL'', PNode [(''FBNET_V2'', PNode [(''ARCH_DEF'', PList [PStr ''ir_k3''])])])],
        immutable = False\<rparr>
       \<lparr>entries = [(''MODEL'', PNode [(''NAME'', PStr ''fbnet''),
                                      (''FBNET_V2'', PNode [(''ARCH_DEF'', PStr [])])])],
        immutable = False\<rparr>))) arch_def_path = Some (PList [])
   \<and> get_by_path (node_of (other_after (merge_from_other_cfg merge_from_tree
       \<lparr>entries = [(''MODEL'', PNode [(''FBNET_V2'', PNode [(''ARCH_DEF'', PList [PStr ''ir_k3''])])])],
        immutable = False\<rparr>
       \<lparr>entries = [(''MODEL'', PNode [(''NAME'', PStr ''fbnet''),
                                      (''FBNET_V2'', PNode [(''ARCH_DEF'', PStr [])])])],
        immutable = False\<rparr>))) [''MODEL'', ''NAME''] = Some (PStr ''fbnet'')
   \<and> merge_logged (merge_from_other_cfg merge_from_tree
       \<lparr>entries = [(''MODEL'', PNode [(''FBNET_V2'', PNode [(''ARCH_DEF'', PList [PStr ''ir_k3''])])])],
        immutable = False\<rparr>
       \<lparr>entries = [(''MODEL'', PNode [(''NAME'', PStr ''fbnet''),
                                      (''FBNET_V2'', PNode [(''ARCH_DEF'', PStr [])])])],
        immutable = False\<rparr>) = [ArchDefChanged]
   \<and> other_after (merge_from_other_cfg merge_from_tree
       \<lparr>entries = [(''MODEL'', PNode [(''FBNET_V2'', PNode [(''ARCH_DEF'', PList [PStr ''ir_k3''])])])],
        immutable = False\<rparr>
       \<lparr>entries = [(''MODEL'', PNode [(''FBNET_V2'', PNode [(''ARCH_DEF'', PStr ''default'')])])],
        immutable = False\<rparr>)
       = \<lparr>entries = [(''MODEL'', PNode [(''FBNET_V2'', PNode [(''ARCH_DEF'', PStr ''default'')])])],
          immutable = False\<rparr>
   \<and> merge_logged (merge_from_other_cfg merge_from_tree
       \<lparr>entries = [(''MODEL'', PNode [(''FBNET_V2'', PNode [(''ARCH_DEF'', PList [PStr ''ir_k3''])])])],
        immutable = False\<rparr>
       \<lparr>entries = [(''MODEL'', PNode [(''FBNET_V2'', PNode [(''ARCH_DEF'', PStr ''default'')])])],
        immutable = False\<rparr>) = []"
proof -
  let ?self = "\<lparr>entries = [(''MODEL'', PNode [(''FBNET_V2'', PNode [(''ARCH_DEF'', PList [PStr ''ir_k3''])])])],
        immutable = False\<rparr>"
  let ?old = "\<lparr>entries = [(''MODEL'', PNode [(''NAME'', PStr ''fbnet''),
                                      (''FBNET_V2'', PNode [(''ARCH_DEF'', PStr [])])])],
        immutable = False\<rparr>"
  let ?new = "\<lparr>entries = [(''MODEL'', PNode [(''FBNET_V2'', PNode [(''ARCH_DEF'', PStr ''default'')])])],
        immutable = False\<rparr>"
  have c: "carries_old_arch_def ?old \<and> \<not> immutable ?old"
    by (simp add: carries_old_arch_def_def arch_def_path_def node_of_def)
  have n: "\<not> carries_old_arch_def ?new"
    by (simp add: carries_old_arch_def_def arch_def_path_def node_of_def)
  have p: "take (length [''MODEL'', ''NAME'']) arch_def_path \<noteq> [''MODEL'', ''NAME'']"
    by (simp add: arch_def_path_def)
  have o: "get_by_path (node_of ?old) [''MODEL'', ''NAME''] = Some (PStr ''fbnet'')"
    by (simp add: node_of_def)
  from merge_from_other_cfg_migration [of ?old merge_from_tree ?self] c
  have 1: "get_by_path (node_of (other_after (merge_from_other_cfg merge_from_tree ?self ?old)))
             arch_def_path = Some (PList [])"
    and 2: "\<forall>p. take (length p) arch_def_path \<noteq> p \<longrightarrow>
           get_by_path (node_of (other_after (merge_from_other_cfg merge_from_tree ?self ?old))) p
             = get_by_path (node_of ?old) p"
    and 3: "merge_logged (merge_from_other_cfg merge_from_tree ?self ?old) = [ArchDefChanged]"
    by blast+
  from merge_from_other_cfg_migration [of ?new merge_from_tree ?self] n
  have 4: "other_after (merge_from_other_cfg merge_from_tree ?self ?new) = ?new"
    and 5: "merge_logged (merge_from_other_cfg merge_from_tree ?self ?new) = []"
    by blast+
  from 2 p o have 6: "get_by_path (node_of (other_after (merge_from_other_cfg merge_from_tree ?self ?old)))
      [''MODEL'', ''NAME''] = Some (PStr ''fbnet'')"
    by metis
  from 1 6 3 4 5 show ?thesis by (intro conjI)
qed

text \<open>
  C9, counterexample. A frozen incoming tree that carries the old default: the warning is
  logged, the assignment of line 91 fails, the value is not rewritten and no merge runs.
\<close>

theorem merge_from_other_cfg_frozen_counterexample:
  "carries_old_arch_def
       \<lparr>entries = [(''MODEL'', PNode [(''FBNET_V2'', PNode [(''ARCH_DEF'', PStr [])])])],
        immutable = True\<rparr>
   \<and> merge_from_other_cfg merge_from_tree
       \<lparr>entries = [], immutable = False\<rparr>
       \<lparr>entries = [(''MODEL'', PNode [(''FBNET_V2'', PNode [(''ARCH_DEF'', PStr [])])])],
        immutable = True\<rparr>
     = \<lparr>merge_raised = Some FrozenStateError,
        self_after = \<lparr>entries = [], immutable = False\<rparr>,
        other_after =
          \<lparr>entries = [(''MODEL'', PNode [(''FBNET_V2'', PNode [(''ARCH_DEF'', PStr [])])])],
           immutable = True\<rparr>,
        merge_logged = [ArchDefChanged]\<rparr>"
  by (simp add: carries_old_arch_def_def arch_def_path_def node_of_def merge_from_other_cfg_def
      cfg_assign_def)

theorem merge_from_other_cfg_mutates_argument_witness:
  "get_by_path (node_of (other_after (merge_from_other_cfg merge_from_tree
       \<lparr>entries = [(''SOLVER'', PNode [(''BASE_LR'', PInt 1)])], immutable = True\<rparr>
       \<lparr>entries = [(''MODEL'', PNode [(''FBNET_V2'', PNode [(''ARCH_DEF'', PStr [])])])],
        immutable = False\<rparr>))) arch_def_path = Some (PList [])
   \<and> other_after (merge_from_other_cfg merge_from_tree
       \<lparr>entries = [(''SOLVER'', PNode [(''BASE_LR'', PInt 1)])], immutable = True\<rparr>
       \<lparr>entries = [(''MODEL'', PNode [(''FBNET_V2'', PNode [(''ARCH_DEF'', PStr [])])])],
        immutable = False\<rparr>)
     \<noteq> \<lparr>entries = [(''MODEL'', PNode [(''FBNET_V2'', PNode [(''ARCH_DEF'', PStr [])])])],
        immutable = False\<rparr>"
proof -
  let ?other = "\<lparr>entries = [(''MODEL'', PNode [(''FBNET_V2'', PNode [(''ARCH_DEF'', PStr [])])])],
        immutable = False\<rparr>"
  have c: "carries_old_arch_def ?other"
    by (simp add: carries_old_arch_def_def arch_def_path_def node_of_def)
  have i: "\<not> immutable ?other" by simp
  show ?thesis
    using merge_from_other_cfg_mutates_argument [OF c i, of merge_from_tree] by blast
qed

text \<open>
  C10, counterexample. The migration triggers on a frozen incoming tree: the call raises
  and the incoming tree is exactly what was passed in.
\<close>

theorem merge_from_other_cfg_argument_frozen_counterexample:
  "carries_old_arch_def
       \<lparr>entries = [(''MODEL'', PNode [(''FBNET_V2'', PNode [(''ARCH_DEF'', PStr []),
                                                            (''WIDTH_DIVISOR'', PInt 8)])]),
                   (''SOLVER'', PNode [(''BASE_LR'', PInt 1)])],
        immutable = True\<rparr>
   \<and> other_after (merge_from_other_cfg merge_from_tree
       \<lparr>entries = [(''MODEL'', PNode [(''FBNET_V2'', PNode [(''ARCH_DEF'', PList [])])])],
        immutable = False\<rparr>
       \<lparr>entries = [(''MODEL'', PNode [(''FBNET_V2'', PNode [(''ARCH_DEF'', PStr []),
                                                            (''WIDTH_DIVISOR'', PInt 8)])]),
                   (''SOLVER'', PNode [(''BASE_LR'', PInt 1)])],
        immutable = True\<rparr>)
     = \<lparr>entries = [(''MODEL'', PNode [(''FBNET_V2'', PNode [(''ARCH_DEF'', PStr []),
                                                            (''WIDTH_DIVISOR'', PInt 8)])]),
                   (''SOLVER'', PNode [(''BASE_LR'', PInt 1)])],
        immutable = True\<rparr>
   \<and> merge_raised (merge_from_other_cfg merge_from_tree
       \<lparr>entries = [(''MODEL'', PNode [(''FBNET_V2'', PNode [(''ARCH_DEF'', PList [])])])],
        immutable = False\<rparr>
       \<lparr>entries = [(''MODEL'', PNode [(''FBNET_V2'', PNode [(''ARCH_DEF'', PStr []),
                                                            (''WIDTH_DIVISOR'', PInt 8)])]),
                   (''SOLVER'', PNode [(''BASE_LR'', PInt 1)])],
        immutable = True\<rparr>) = Some FrozenStateError"
  by (simp add: carries_old_arch_def_def arch_def_path_def node_of_def merge_from_other_cfg_def
      cfg_assign_def)

subsection \<open>Hashing\<close>








subsection \<open>Rerouting of paths\<close>











end
